theory Spec2Isabelle
  imports Main
begin

section \<open>The orchestrator's control surface and the deduplicator (from the specification)\<close>

text \<open>
  The repository's sources hold the control component only. The run state machine behind
  \<open>start\<close>, \<open>stop\<close> and \<open>status\<close> and the deduplicator are described by the
  specification (sections 3, 4.2, 4.9 and 6) and modelled from its words.
\<close>

text \<open>
  Modelled from the spec: the states of the PipelineStateMachine (section 4.9), whose
  code is not among the sources.
\<close>

datatype run_state = Idle | Running | Stopping | Error | Completed

text \<open>
  Modelled from the spec: the PipelineRun singleton (section 3), missing from the
  sources, with the two fields the control surface reads and writes. Its start time and
  per-target results take no part in the transitions.
\<close>

record PipelineRun =
  state :: run_state
  current_message :: string

text \<open>
  Modelled from the spec: the result of \<open>status()\<close> (section 6),
  \<open>{state, message}\<close>; the function is missing from the sources.
\<close>

record run_status =
  state :: run_state
  message :: string

text \<open>
  Modelled from the spec: the failure of \<open>start\<close> (section 4.9); the error type is
  missing from the sources.
\<close>

datatype control_error = AlreadyRunning

text \<open>
  Modelled from the spec: \<open>start(config)\<close> of the missing state machine. It begins a
  run from Idle and fails with AlreadyRunning in every other state, leaving the run as
  it is.
\<close>

definition start :: "'cfg \<Rightarrow> PipelineRun \<Rightarrow> (control_error + unit) \<times> PipelineRun" where
  "start cfg p =
     (if PipelineRun.state p = Idle then (Inr (), p\<lparr>PipelineRun.state := Running\<rparr>)
      else (Inl AlreadyRunning, p))"

text \<open>
  Modelled from the spec: \<open>stop()\<close> of the missing state machine, a no-op unless
  Running, where it moves to Stopping.
\<close>

definition stop :: "PipelineRun \<Rightarrow> PipelineRun" where
  "stop p = (if PipelineRun.state p = Running then p\<lparr>PipelineRun.state := Stopping\<rparr> else p)"


text \<open>
  Modelled from the spec: what the missing scheduler does to the run state, one
  constructor for each cause section 4.9 and section 4.1 name. An attempt that completes
  is an attempt boundary: there the scheduler observes a stop request and finishes
  (Stopping to Idle), and otherwise goes on. A run that has processed its targets is
  Completed, a fatal condition makes it Error, and both are retired to Idle.
\<close>

datatype scheduler_event = AttemptCompleted | TargetsExhausted | FatalCondition | Retired

text \<open>
  Modelled from the spec: the transitions of section 4.9 that the missing scheduler
  causes, Stopping to Idle, Running to Completed, Running to Error, Completed to Idle and
  Error to Idle. An event in a state the specification gives it no transition from
  changes nothing.
\<close>

fun scheduler_step :: "scheduler_event \<Rightarrow> run_state \<Rightarrow> run_state" where
  "scheduler_step AttemptCompleted Stopping = Idle"
| "scheduler_step TargetsExhausted Running = Completed"
| "scheduler_step FatalCondition Running = Error"
| "scheduler_step Retired Completed = Idle"
| "scheduler_step Retired Error = Idle"
| "scheduler_step _ s = s"

text \<open>
  Modelled from the spec: a history of the missing state machine, the control calls and
  the scheduler's events in the order they take effect.
\<close>

datatype 'cfg machine_event = Start 'cfg | Stop | Scheduler scheduler_event

text \<open>
  Modelled from the spec: one step of the missing state machine, by a control call
  (\<open>start\<close>, whose failure leaves the run as it is, or \<open>stop\<close>) or by the scheduler.
\<close>

fun machine_step :: "'cfg machine_event \<Rightarrow> PipelineRun \<Rightarrow> PipelineRun" where
  "machine_step (Start cfg) p = snd (start cfg p)"
| "machine_step Stop p = stop p"
| "machine_step (Scheduler e) p = p\<lparr>PipelineRun.state := scheduler_step e (PipelineRun.state p)\<rparr>"

text \<open>Modelled from the spec: the missing state machine after a whole history.\<close>

fun machine_run :: "'cfg machine_event list \<Rightarrow> PipelineRun \<Rightarrow> PipelineRun" where
  "machine_run [] p = p"
| "machine_run (e # es) p = machine_run es (machine_step e p)"

subsection \<open>Deduplicator\<close>

text \<open>
  Modelled from the spec: a RawReview (section 3); the type is missing from the sources.
\<close>

record RawReview =
  target_identifier :: string
  title :: string
  rating :: int
  content :: string
  date :: string
  source_page_index :: nat

text \<open>
  Modelled from the spec: the normalisation of the missing fingerprint function,
  lower-casing and collapsing each run of white space into one space.
\<close>

definition lower_case :: "char \<Rightarrow> char" where
  "lower_case ch =
     (let n = (of_char ch :: nat) in if 65 \<le> n \<and> n \<le> 90 then char_of (n + 32) else ch)"

text \<open>
  Modelled from the spec: the white space the missing normalisation collapses (space, tab,
  line feed, vertical tab, form feed, carriage return).
\<close>

definition white :: "char \<Rightarrow> bool" where
  "white ch = ((of_char ch :: nat) \<in> {9, 10, 11, 12, 13, 32})"

text \<open>
  Modelled from the spec: white-space collapsing of the missing normalisation;
  \<open>after_white\<close> tells that the character before was white space, already replaced.
\<close>

fun collapse :: "bool \<Rightarrow> string \<Rightarrow> string" where
  "collapse after_white [] = []"
| "collapse after_white (ch # cs) =
     (if white ch then (if after_white then collapse True cs else CHR '' '' # collapse True cs)
      else ch # collapse False cs)"

text \<open>
  Modelled from the spec: the missing normalisation as a whole, lower-cased and
  whitespace-collapsed.
\<close>

definition normalize :: "string \<Rightarrow> string" where
  "normalize s = collapse False (map lower_case s)"

text \<open>
  Modelled from the spec: the decimal digits of a natural number, for the rating the
  missing fingerprint function appends to the content.
\<close>

fun decimal :: "nat \<Rightarrow> string" where
  "decimal n =
     (if n < 10 then [char_of (48 + n)] else decimal (n div 10) @ [char_of (48 + n mod 10)])"

text \<open>
  Modelled from the spec: the decimal rendering of the missing fingerprint function for
  any integer rating, with its sign.
\<close>

definition show_int :: "int \<Rightarrow> string" where
  "show_int i = (if i < 0 then CHR ''-'' # decimal (nat (- i)) else decimal (nat i))"

text \<open>
  Modelled from the spec: the fingerprint of section 4.2 (its function is missing from
  the sources), the normalised content concatenated with the rating.
\<close>

definition fingerprint :: "RawReview \<Rightarrow> string" where
  "fingerprint r = normalize (content r) @ show_int (rating r)"

text \<open>
  Modelled from the spec: \<open>dedupe(batch, seen) -> (unique, removed_count)\<close> of section
  4.2, missing from the sources. The batch is read in scrape order; a review whose
  fingerprint has been seen is dropped and counted, any other is kept and its fingerprint
  is seen from then on.
\<close>

fun dedupe :: "RawReview list \<Rightarrow> string set \<Rightarrow> RawReview list \<times> nat" where
  "dedupe [] seen = ([], 0)"
| "dedupe (r # rs) seen =
     (if fingerprint r \<in> seen
      then (case dedupe rs seen of (unique, removed) \<Rightarrow> (unique, Suc removed))
      else (case dedupe rs (insert (fingerprint r) seen) of
              (unique, removed) \<Rightarrow> (r # unique, removed)))"

section \<open>The pipeline control component (PipelineControl.jsx)\<close>

text \<open>
  The component keeps three pieces of React state: \<open>isRunning\<close>, \<open>logs\<close> and
  \<open>config\<close>. Every handler is modelled as a function from the state it is called in
  to the state after all of its setter calls have been applied. What the handler cannot
  decide itself is a parameter: the settled result of the backend call it awaits and the
  string \<open>new Date().toLocaleTimeString()\<close> returns at each \<open>addLog\<close> call.
\<close>

subsection \<open>Data\<close>

text \<open>
  A JavaScript number as far as \<open>config.pages\<close> needs it: \<open>NaN\<close> or an integer.
  (\<open>parseInt\<close> yields nothing else but the two infinities and a negative zero, and
  rounds integers beyond 2^53 to the next double; \<open>Num\<close> holds the integer before
  that rounding.)
\<close>

datatype jsnum = NaN | Num int

record config =
  asins :: string
  pages :: jsnum
  headless :: bool
  mining :: bool

datatype log_type = info | success | warning

text \<open>
  The object \<open>api.getStatus()\<close> resolves to, as \<open>checkStatus\<close> reads it: the field
  \<open>status\<close> is compared with a string, the field \<open>message\<close> may be missing.
\<close>

record status_response =
  status :: string
  message :: "string option"

record log_entry =
  message :: string
  type :: log_type
  timestamp :: string

record PipelineControl =
  isRunning :: bool
  logs :: "log_entry list"
  config :: config

text \<open>The arguments of the three \<open>useState\<close> calls.\<close>

definition initial_config :: config where
  "initial_config =
     \<lparr>asins = ''B0CX59H5W7,B0FHB5V36G'', pages = Num 2, headless = True, mining = True\<rparr>"

definition initial :: PipelineControl where
  "initial = \<lparr>isRunning = False, logs = [], config = initial_config\<rparr>"

subsection \<open>The backend as the component sees it\<close>

text \<open>A promise of the \<open>api\<close> service, once settled.\<close>

datatype 'a promise = Resolved 'a | Rejected

datatype request = GetStatus | StartPipeline config | StopPipeline

text \<open>
  An async handler either runs to its end or leaves a rejection nobody catches. It is
  returned together with the requests the handler sent to the backend.
\<close>

datatype js_error = UnhandledRejection

type_synonym handled = "request list \<times> (js_error + PipelineControl)"

subsection \<open>addLog\<close>

text \<open>
  \<open>xs.slice(-k)\<close>: the elements from index \<open>max (length - k) 0\<close> on (the subtraction
  on \<open>nat\<close> stops at 0 as the clamping does).
\<close>

definition slice_last :: "nat \<Rightarrow> 'a list \<Rightarrow> 'a list" where
  "slice_last k xs = drop (length xs - k) xs"

text \<open>
  \<open>setLogs(prev => [...prev, { message, type, timestamp }].slice(-50))\<close>, with the
  time string \<open>ts\<close> read from the clock.
\<close>

definition addLog :: "string \<Rightarrow> log_type \<Rightarrow> string \<Rightarrow> PipelineControl \<Rightarrow> PipelineControl" where
  "addLog m ty ts c =
     c\<lparr>logs := slice_last 50 (logs c @ [\<lparr>message = m, type = ty, timestamp = ts\<rparr>])\<rparr>"

text \<open>A sequence of \<open>addLog\<close> calls, oldest first.\<close>

fun addLogs :: "(string \<times> log_type \<times> string) list \<Rightarrow> PipelineControl \<Rightarrow> PipelineControl" where
  "addLogs [] c = c"
| "addLogs ((m, ty, ts) # es) c = addLogs es (addLog m ty ts c)"

fun entry_of :: "string \<times> log_type \<times> string \<Rightarrow> log_entry" where
  "entry_of (m, ty, ts) = \<lparr>message = m, type = ty, timestamp = ts\<rparr>"

subsection \<open>checkStatus, handleStart, handleStop\<close>

text \<open>
  After a handler: the state its setters produced, or the state it was called in when it
  ended in a rejection before calling any setter.
\<close>

definition state_after :: "PipelineControl \<Rightarrow> handled \<Rightarrow> PipelineControl" where
  "state_after c h = (case snd h of Inl _ \<Rightarrow> c | Inr c' \<Rightarrow> c')"

text \<open>
  \<open>checkStatus\<close> has no try/catch: a rejected \<open>api.getStatus()\<close> ends it. A falsy
  result (\<open>None\<close>) changes nothing. Otherwise \<open>isRunning\<close> is set from the comparison
  with \<open>'running'\<close>, and the message is logged when it is truthy (present and not the
  empty string) and different from \<open>'Ready'\<close>.
\<close>

definition checkStatus ::
  "string \<Rightarrow> status_response option promise \<Rightarrow> PipelineControl \<Rightarrow> handled" where
  "checkStatus ts polled c =
     ([GetStatus],
      case polled of
        Rejected \<Rightarrow> Inl UnhandledRejection
      | Resolved None \<Rightarrow> Inr c
      | Resolved (Some st) \<Rightarrow>
          Inr (let c1 = c\<lparr>isRunning := (status st = ''running'')\<rparr> in
               case status_response.message st of
                 None \<Rightarrow> c1
               | Some m \<Rightarrow>
                   if m \<noteq> [] \<and> m \<noteq> ''Ready''
                   then addLog m (if status st = ''running'' then info else success) ts c1
                   else c1))"

text \<open>
  \<open>handleStart\<close>: the whole body is inside try/catch, so it always runs to its end.
  \<open>t0\<close> and \<open>t1\<close> are the clock readings of its two \<open>addLog\<close> calls.
\<close>

definition handleStart ::
  "string \<Rightarrow> string \<Rightarrow> unit promise \<Rightarrow> PipelineControl \<Rightarrow> handled" where
  "handleStart t0 t1 started c =
     (let c1 = addLog ''Initiating pipeline start...'' info t0 c in
      ([StartPipeline (config c)],
       Inr (case started of
              Resolved _ \<Rightarrow>
                addLog ''Pipeline started successfully'' success t1 (c1\<lparr>isRunning := True\<rparr>)
            | Rejected \<Rightarrow> addLog ''Failed to start pipeline'' warning t1 c1)))"

definition handleStop :: "string \<Rightarrow> unit promise \<Rightarrow> PipelineControl \<Rightarrow> handled" where
  "handleStop ts stopped c =
     ([StopPipeline],
      Inr (case stopped of
             Resolved _ \<Rightarrow> addLog ''Pipeline stop requested'' warning ts (c\<lparr>isRunning := False\<rparr>)
           | Rejected \<Rightarrow> addLog ''Failed to stop pipeline'' warning ts c))"

text \<open>The button the component renders: \<open>!isRunning ? Start Pipeline : Stop Pipeline\<close>.\<close>

datatype button = Start_Pipeline | Stop_Pipeline

definition rendered_button :: "PipelineControl \<Rightarrow> button" where
  "rendered_button c = (if \<not> isRunning c then Start_Pipeline else Stop_Pipeline)"

subsection \<open>The polling timer\<close>

text \<open>
  The effect runs once, when the component mounts (its dependency list is empty):
  \<open>setInterval(checkStatus, 2000)\<close>; its cleanup clears that timer when the component
  unmounts.
\<close>

datatype callback = checkStatus_callback

record interval_timer =
  callback :: callback
  delay :: nat

definition useEffect_timer :: interval_timer where
  "useEffect_timer = \<lparr>callback = checkStatus_callback, delay = 2000\<rparr>"

text \<open>
  The runtime's interval timer on a clock of whole milliseconds, without drift: a timer
  set at time 0 and cleared at time \<open>unmounted\<close> runs its callback at the positive
  multiples of its delay before \<open>unmounted\<close>.
\<close>

definition fires :: "interval_timer \<Rightarrow> nat \<Rightarrow> nat \<Rightarrow> bool" where
  "fires tm unmounted t = (0 < t \<and> t < unmounted \<and> t mod delay tm = 0)"

subsection \<open>parseInt\<close>

text \<open>
  \<open>parseInt(string)\<close> with no radix, following the language definition: leading white
  space is dropped, then one sign, then a \<open>0x\<close>/\<open>0X\<close> prefix (which selects radix 16);
  the longest run of digits of the radix is the numeral, and the result is \<open>NaN\<close> when
  that run is empty. Characters are code units below 256.
\<close>

definition is_white_space :: "char \<Rightarrow> bool" where
  "is_white_space ch = ((of_char ch :: nat) \<in> {9, 10, 11, 12, 13, 32, 160})"

definition digit_value :: "char \<Rightarrow> nat option" where
  "digit_value ch =
     (let n = (of_char ch :: nat) in
      if 48 \<le> n \<and> n \<le> 57 then Some (n - 48)
      else if 97 \<le> n \<and> n \<le> 122 then Some (n - 87)
      else if 65 \<le> n \<and> n \<le> 90 then Some (n - 55)
      else None)"

definition radix_digit :: "nat \<Rightarrow> char \<Rightarrow> bool" where
  "radix_digit R ch = (case digit_value ch of None \<Rightarrow> False | Some d \<Rightarrow> d < R)"

definition numeral_value :: "nat \<Rightarrow> string \<Rightarrow> nat" where
  "numeral_value R Z =
     foldl (\<lambda>acc ch. acc * R + (case digit_value ch of None \<Rightarrow> 0 | Some d \<Rightarrow> d)) 0 Z"

definition strip_sign :: "string \<Rightarrow> string" where
  "strip_sign S =
     (case S of [] \<Rightarrow> [] | ch # r \<Rightarrow> if ch = CHR ''+'' \<or> ch = CHR ''-'' then r else S)"

definition parseInt :: "string \<Rightarrow> jsnum" where
  "parseInt raw =
     (let S = dropWhile is_white_space raw;
          sign = (case S of [] \<Rightarrow> (1::int) | ch # _ \<Rightarrow> if ch = CHR ''-'' then - 1 else 1);
          S1 = strip_sign S;
          (R, S2) = (case S1 of
                       a # b # r \<Rightarrow>
                         if a = CHR ''0'' \<and> (b = CHR ''x'' \<or> b = CHR ''X'')
                         then (16, r) else (10, S1)
                     | _ \<Rightarrow> (10, S1));
          Z = takeWhile (radix_digit R) S2
      in if Z = [] then NaN else Num (sign * int (numeral_value R Z)))"

text \<open>
  A value of the pages field that is not numeric: after leading white space and one sign
  there is no decimal digit to start with. The cleared field, the empty string, is the
  first case.
\<close>

definition starts_with_digit :: "string \<Rightarrow> bool" where
  "starts_with_digit raw =
     (case strip_sign (dropWhile is_white_space raw) of
        [] \<Rightarrow> False
      | ch # _ \<Rightarrow> radix_digit 10 ch)"

subsection \<open>The configuration panel\<close>

text \<open>
  Each \<open>onChange\<close>/\<open>onClick\<close> of the panel is one \<open>setConfig({ ...config, f: v })\<close>:
  a copy of the configuration with the field \<open>f\<close> replaced.
\<close>

definition asins_onChange :: "string \<Rightarrow> PipelineControl \<Rightarrow> handled" where
  "asins_onChange v c = ([], Inr (c\<lparr>config := (config c)\<lparr>asins := v\<rparr>\<rparr>))"

definition pages_onChange :: "string \<Rightarrow> PipelineControl \<Rightarrow> handled" where
  "pages_onChange v c = ([], Inr (c\<lparr>config := (config c)\<lparr>pages := parseInt v\<rparr>\<rparr>))"

definition headless_onClick :: "PipelineControl \<Rightarrow> handled" where
  "headless_onClick c =
     ([], Inr (c\<lparr>config := (config c)\<lparr>headless := \<not> headless (config c)\<rparr>\<rparr>))"

definition mining_onClick :: "PipelineControl \<Rightarrow> handled" where
  "mining_onClick c =
     ([], Inr (c\<lparr>config := (config c)\<lparr>mining := \<not> mining (config c)\<rparr>\<rparr>))"

subsection \<open>Sessions\<close>

text \<open>
  Everything that can happen to a mounted component, with what the environment
  contributes to it: the user's edits and clicks, and the timer's polls.
\<close>

datatype event =
    AsinsChange string
  | PagesChange string
  | HeadlessClick
  | MiningClick
  | StartClick string string "unit promise"
  | StopClick string "unit promise"
  | Poll string "status_response option promise"

fun handle :: "event \<Rightarrow> PipelineControl \<Rightarrow> handled" where
  "handle (AsinsChange v) c = asins_onChange v c"
| "handle (PagesChange v) c = pages_onChange v c"
| "handle HeadlessClick c = headless_onClick c"
| "handle MiningClick c = mining_onClick c"
| "handle (StartClick t0 t1 started) c = handleStart t0 t1 started c"
| "handle (StopClick ts stopped) c = handleStop ts stopped c"
| "handle (Poll ts polled) c = checkStatus ts polled c"

fun run :: "event list \<Rightarrow> PipelineControl \<Rightarrow> PipelineControl" where
  "run [] c = c"
| "run (e # es) c = run es (state_after c (handle e c))"

section \<open>Properties\<close>

subsection \<open>The log ring\<close>

lemma slice_last_length: "length (slice_last k xs) = min k (length xs)"
  by (simp add: slice_last_def)

lemma slice_last_append_slice:
  "slice_last k (slice_last k xs @ ys) = slice_last k (xs @ ys)"
proof (cases "k \<le> length xs")
  case True
  then show ?thesis by (simp add: slice_last_def add.commute)
next
  case False
  then show ?thesis by (simp add: slice_last_def)
qed

lemma logs_addLogs:
  "logs (addLogs es c) = (if es = [] then logs c else slice_last 50 (logs c @ map entry_of es))"
proof (induction es arbitrary: c)
  case Nil
  show ?case by simp
next
  case (Cons e es)
  obtain m ty ts where e: "e = (m, ty, ts)" by (cases e)
  show ?case
    by (simp add: e Cons.IH addLog_def slice_last_append_slice)
qed

text \<open>
  C4. The execution log is a ring of capacity 50. One \<open>addLog\<close> call puts its entry
  at the end; the log never holds more than 50 entries afterwards; below capacity nothing
  is dropped; at capacity exactly the oldest entry goes and the others keep their order.
  After any non-empty sequence of calls the log is the last 50 entries of the old log
  followed by the new entries, so it holds \<open>min 50 (old + new)\<close> entries.
\<close>

theorem addLog_bounded_ring:
  "last (logs (addLog m ty ts c)) = \<lparr>message = m, type = ty, timestamp = ts\<rparr>
   \<and> length (logs (addLog m ty ts c)) \<le> 50
   \<and> (length (logs c) < 50 \<longrightarrow>
        logs (addLog m ty ts c) = logs c @ [\<lparr>message = m, type = ty, timestamp = ts\<rparr>])
   \<and> (length (logs c) = 50 \<longrightarrow>
        logs (addLog m ty ts c) = tl (logs c) @ [\<lparr>message = m, type = ty, timestamp = ts\<rparr>])
   \<and> (es \<noteq> [] \<longrightarrow>
        logs (addLogs es c) = slice_last 50 (logs c @ map entry_of es)
        \<and> length (logs (addLogs es c)) = min 50 (length (logs c) + length es))
   \<and> length (logs (addLogs es initial)) \<le> 50"
proof -
  let ?e = "\<lparr>message = m, type = ty, timestamp = ts\<rparr>"
  have a: "last (logs (addLog m ty ts c)) = ?e"
    by (simp add: addLog_def slice_last_def)
  have b: "length (logs (addLog m ty ts c)) \<le> 50"
    by (simp add: addLog_def slice_last_length)
  have c: "length (logs c) < 50 \<longrightarrow> logs (addLog m ty ts c) = logs c @ [?e]"
    by (simp add: addLog_def slice_last_def)
  have d: "length (logs c) = 50 \<longrightarrow> logs (addLog m ty ts c) = tl (logs c) @ [?e]"
    by (simp add: addLog_def slice_last_def drop_Suc)
  have e: "es \<noteq> [] \<longrightarrow>
        logs (addLogs es c) = slice_last 50 (logs c @ map entry_of es)
        \<and> length (logs (addLogs es c)) = min 50 (length (logs c) + length es)"
    by (simp add: logs_addLogs slice_last_length)
  have f: "length (logs (addLogs es initial)) \<le> 50"
    by (simp add: logs_addLogs slice_last_length initial_def)
  from a b c d e f show ?thesis by blast
qed

theorem addLog_bounded_ring_witness:
  "logs (addLog ''x'' info ''10:00:00'' initial)
     = [\<lparr>message = ''x'', type = info, timestamp = ''10:00:00''\<rparr>]
   \<and> logs (addLog ''x'' info ''10:00:00''
         (initial\<lparr>logs := replicate 50 \<lparr>message = ''old'', type = success, timestamp = ''09:00:00''\<rparr>\<rparr>))
     = tl (replicate 50 \<lparr>message = ''old'', type = success, timestamp = ''09:00:00''\<rparr>)
       @ [\<lparr>message = ''x'', type = info, timestamp = ''10:00:00''\<rparr>]
   \<and> length (logs (addLogs [(''y'', warning, ''10:00:02'')] initial)) = 1"
  using addLog_bounded_ring [where c = initial and m = "''x''" and ty = info
      and ts = "''10:00:00''" and es = "[(''y'', warning, ''10:00:02'')]"]
    addLog_bounded_ring [where m = "''x''" and ty = info and ts = "''10:00:00''"
      and c = "initial\<lparr>logs := replicate 50 \<lparr>message = ''old'', type = success, timestamp = ''09:00:00''\<rparr>\<rparr>"
      and es = "[]"]
  by (simp add: initial_def slice_last_length)

subsection \<open>What the handlers leave alone\<close>

lemma isRunning_addLog: "isRunning (addLog m ty ts c) = isRunning c"
  by (simp add: addLog_def)

lemma config_addLog: "config (addLog m ty ts c) = config c"
  by (simp add: addLog_def)

lemma logs_addLog:
  "logs (addLog m ty ts c) = slice_last 50 (logs c @ [\<lparr>message = m, type = ty, timestamp = ts\<rparr>])"
  by (simp add: addLog_def)

lemma last_logs_addLog:
  "last (logs (addLog m ty ts c)) = \<lparr>message = m, type = ty, timestamp = ts\<rparr>"
  by (simp add: addLog_def slice_last_def)

lemma checkStatus_isRunning:
  "isRunning (state_after c (checkStatus ts (Resolved (Some st)) c)) = (status st = ''running'')"
  by (simp add: checkStatus_def state_after_def isRunning_addLog Let_def split: option.splits)

lemma config_checkStatus: "config (state_after c (checkStatus ts polled c)) = config c"
  by (simp add: checkStatus_def state_after_def config_addLog Let_def
      split: promise.splits option.splits)

lemma config_handleStart: "config (state_after c (handleStart t0 t1 started c)) = config c"
  by (simp add: handleStart_def state_after_def config_addLog Let_def split: promise.splits)

lemma config_handleStop: "config (state_after c (handleStop ts stopped c)) = config c"
  by (simp add: handleStop_def state_after_def config_addLog split: promise.splits)

subsection \<open>Status messages in the log\<close>

text \<open>
  C5, as stated, fails: a poll that returns the message \<open>'Ready'\<close> appends nothing.
  Polled on the freshly mounted component, \<open>{status: 'idle', message: 'Ready'}\<close> leaves
  the log empty.
\<close>

theorem checkStatus_Ready_not_logged:
  "logs (state_after initial
      (checkStatus ''10:00:00''
        (Resolved (Some \<lparr>status = ''idle'', status_response.message = Some ''Ready''\<rparr>))
        initial)) = []"
  by (simp add: checkStatus_def state_after_def initial_def)

text \<open>
  C5, amended. A status poll that returns a message which is neither empty nor
  \<open>'Ready'\<close> appends that message to the log ring, tagged \<open>info\<close> when the polled
  status is \<open>'running'\<close> and \<open>success\<close> otherwise. A poll whose message is empty,
  \<open>'Ready'\<close> or missing leaves the log as it is.
\<close>

theorem checkStatus_logs_message:
  "(m \<noteq> [] \<and> m \<noteq> ''Ready'' \<longrightarrow>
      logs (state_after c (checkStatus ts
              (Resolved (Some \<lparr>status = s, status_response.message = Some m\<rparr>)) c))
        = slice_last 50 (logs c @
            [\<lparr>message = m, type = (if s = ''running'' then info else success), timestamp = ts\<rparr>]))
   \<and> (m = [] \<or> m = ''Ready'' \<longrightarrow>
      logs (state_after c (checkStatus ts
              (Resolved (Some \<lparr>status = s, status_response.message = Some m\<rparr>)) c)) = logs c)
   \<and> logs (state_after c (checkStatus ts
              (Resolved (Some \<lparr>status = s, status_response.message = None\<rparr>)) c)) = logs c"
  by (simp add: checkStatus_def state_after_def logs_addLog)

theorem checkStatus_logs_message_witness:
  "logs (state_after initial (checkStatus ''10:00:00''
      (Resolved (Some \<lparr>status = ''error'', status_response.message = Some ''Scrape failed''\<rparr>))
      initial))
     = [\<lparr>message = ''Scrape failed'', type = success, timestamp = ''10:00:00''\<rparr>]
   \<and> logs (state_after initial (checkStatus ''10:00:00''
      (Resolved (Some \<lparr>status = ''idle'', status_response.message = Some []\<rparr>)) initial)) = []"
  using checkStatus_logs_message [where m = "''Scrape failed''" and s = "''error''"
      and ts = "''10:00:00''" and c = initial]
    checkStatus_logs_message [where m = "[]" and s = "''idle''" and ts = "''10:00:00''"
      and c = initial]
  by (simp add: initial_def slice_last_def)

subsection \<open>The mining default\<close>

lemma mining_handle:
  "e \<noteq> MiningClick \<Longrightarrow> mining (config (state_after c (handle e c))) = mining (config c)"
proof (cases e)
  case (AsinsChange v)
  then show ?thesis by (simp add: asins_onChange_def state_after_def)
next
  case (PagesChange v)
  then show ?thesis by (simp add: pages_onChange_def state_after_def)
next
  case HeadlessClick
  then show ?thesis by (simp add: headless_onClick_def state_after_def)
next
  case MiningClick
  assume "e \<noteq> MiningClick"
  with MiningClick show ?thesis by simp
next
  case (StartClick t0 t1 started)
  then show ?thesis by (simp add: config_handleStart)
next
  case (StopClick ts stopped)
  then show ?thesis by (simp add: config_handleStop)
next
  case (Poll ts polled)
  then show ?thesis by (simp add: config_checkStatus)
qed

lemma mining_run:
  "MiningClick \<notin> set evs \<Longrightarrow> mining (config (run evs c)) = mining (config c)"
proof (induction evs arbitrary: c)
  case Nil
  show ?case by simp
next
  case (Cons e evs)
  from Cons.prems have "e \<noteq> MiningClick" and "MiningClick \<notin> set evs" by auto
  then show ?case by (simp add: Cons.IH mining_handle)
qed

text \<open>
  C6. The initial configuration has \<open>mining = true\<close>. After any session in which the
  Review Mining toggle was never clicked, whatever else was edited, clicked or polled, the
  configuration still has it, and that configuration is what Start Pipeline sends.
\<close>

theorem mining_enabled_by_default:
  "mining initial_config
   \<and> mining (config initial)
   \<and> (MiningClick \<notin> set evs \<longrightarrow>
        mining (config (run evs initial))
        \<and> fst (handleStart t0 t1 started (run evs initial))
            = [StartPipeline (config (run evs initial))])"
  by (simp add: mining_run) (simp add: initial_def initial_config_def handleStart_def Let_def)

theorem mining_enabled_by_default_witness:
  "mining (config (run [PagesChange ''3'', HeadlessClick, Poll ''10:00:02'' (Resolved None)] initial))
   \<and> fst (handleStart ''10:00:03'' ''10:00:04'' (Resolved ())
        (run [PagesChange ''3'', HeadlessClick, Poll ''10:00:02'' (Resolved None)] initial))
      = [StartPipeline (config (run [PagesChange ''3'', HeadlessClick,
            Poll ''10:00:02'' (Resolved None)] initial))]"
  using mining_enabled_by_default
    [where evs = "[PagesChange ''3'', HeadlessClick, Poll ''10:00:02'' (Resolved None)]"
       and ?t0.0 = "''10:00:03''" and ?t1.0 = "''10:00:04''" and started = "Resolved ()"]
  by simp

subsection \<open>Polling\<close>

text \<open>
  C8. After a poll that resolves to a status object, \<open>isRunning\<close> is true iff the
  object's \<open>status\<close> is \<open>'running'\<close>, whatever it was before, also right after
  \<open>handleStart\<close> or \<open>handleStop\<close> set it. The effect registers \<open>checkStatus\<close>
  with a delay of 2000 ms: between mounting and unmounting the timer fires at the
  multiples of 2000 ms, so 2000 ms after a firing comes the next and none in between.
\<close>

theorem poll_overwrites_isRunning:
  "isRunning (state_after c (checkStatus ts (Resolved (Some st)) c)) = (status st = ''running'')
   \<and> isRunning (state_after (state_after c (handleStart t0 t1 started c))
        (checkStatus ts (Resolved (Some st)) (state_after c (handleStart t0 t1 started c))))
      = (status st = ''running'')
   \<and> isRunning (state_after (state_after c (handleStop t0 stopped c))
        (checkStatus ts (Resolved (Some st)) (state_after c (handleStop t0 stopped c))))
      = (status st = ''running'')
   \<and> useEffect_timer = \<lparr>callback = checkStatus_callback, delay = 2000\<rparr>
   \<and> fires useEffect_timer unmounted t = (0 < t \<and> t < unmounted \<and> 2000 dvd t)
   \<and> (fires useEffect_timer unmounted t \<and> t + 2000 < unmounted \<longrightarrow>
        fires useEffect_timer unmounted (t + 2000)
        \<and> (\<forall>d. 0 < d \<and> d < 2000 \<longrightarrow> \<not> fires useEffect_timer unmounted (t + d)))"
proof -
  have f: "fires useEffect_timer unmounted t = (0 < t \<and> t < unmounted \<and> 2000 dvd t)" for t
    by (simp add: fires_def useEffect_timer_def dvd_eq_mod_eq_0)
  have g: "\<not> 2000 dvd t + d" if "2000 dvd t" "0 < d" "d < 2000" for d
  proof
    assume "2000 dvd t + d"
    with that(1) have "2000 dvd d" by (simp add: dvd_add_right_iff)
    with that(2,3) show False by (auto dest: dvd_imp_le)
  qed
  have h: "fires useEffect_timer unmounted t \<and> t + 2000 < unmounted \<longrightarrow>
        fires useEffect_timer unmounted (t + 2000)
        \<and> (\<forall>d. 0 < d \<and> d < 2000 \<longrightarrow> \<not> fires useEffect_timer unmounted (t + d))"
    using g by (simp add: f)
  have i: "useEffect_timer = \<lparr>callback = checkStatus_callback, delay = 2000\<rparr>"
    by (simp add: useEffect_timer_def)
  note p = checkStatus_isRunning
  from p [of c ts st] p [of "state_after c (handleStart t0 t1 started c)" ts st]
    p [of "state_after c (handleStop t0 stopped c)" ts st] i f [of t] h
  show ?thesis by blast
qed

theorem poll_overwrites_isRunning_witness:
  "fires useEffect_timer 10000 2000 \<and> fires useEffect_timer 10000 4000
   \<and> \<not> fires useEffect_timer 10000 3000"
  using poll_overwrites_isRunning [where unmounted = 10000 and t = 2000]
  by (simp add: fires_def useEffect_timer_def)

subsection \<open>The toggles\<close>

text \<open>
  C9. A click on the Headless Mode toggle negates \<open>headless\<close> and a click on the Review
  Mining toggle negates \<open>mining\<close>; the three other fields of the configuration, the
  running flag and the log are as before, and no request goes to the backend.
\<close>

theorem toggles_flip_one_field:
  "fst (headless_onClick c) = []
   \<and> snd (headless_onClick c) = Inr (state_after c (headless_onClick c))
   \<and> headless (config (state_after c (headless_onClick c))) = (\<not> headless (config c))
   \<and> asins (config (state_after c (headless_onClick c))) = asins (config c)
   \<and> pages (config (state_after c (headless_onClick c))) = pages (config c)
   \<and> mining (config (state_after c (headless_onClick c))) = mining (config c)
   \<and> isRunning (state_after c (headless_onClick c)) = isRunning c
   \<and> logs (state_after c (headless_onClick c)) = logs c
   \<and> fst (mining_onClick c) = []
   \<and> snd (mining_onClick c) = Inr (state_after c (mining_onClick c))
   \<and> mining (config (state_after c (mining_onClick c))) = (\<not> mining (config c))
   \<and> asins (config (state_after c (mining_onClick c))) = asins (config c)
   \<and> pages (config (state_after c (mining_onClick c))) = pages (config c)
   \<and> headless (config (state_after c (mining_onClick c))) = headless (config c)
   \<and> isRunning (state_after c (mining_onClick c)) = isRunning c
   \<and> logs (state_after c (mining_onClick c)) = logs c"
  by (simp add: headless_onClick_def mining_onClick_def state_after_def)

subsection \<open>The pages field\<close>

lemma zero_is_digit: "radix_digit 10 (CHR ''0'')"
  by (simp add: radix_digit_def digit_value_def)

lemma parseInt_NaN:
  assumes "\<not> starts_with_digit raw"
  shows "parseInt raw = NaN"
proof (cases "strip_sign (dropWhile is_white_space raw)")
  case Nil
  then show ?thesis by (simp add: parseInt_def Let_def)
next
  case (Cons ch r)
  with assms have nd: "\<not> radix_digit 10 ch"
    by (simp add: starts_with_digit_def)
  with zero_is_digit have "ch \<noteq> CHR ''0''" by auto
  with Cons nd show ?thesis
    by (cases r) (simp_all add: parseInt_def Let_def)
qed

text \<open>
  C10. The cleared field delivers the empty string, which does not start with a digit.
  For every such value of the field, \<open>config.pages\<close> becomes \<open>NaN\<close>, and a start that
  follows sends the configuration with \<open>pages = NaN\<close> to the backend.
\<close>

theorem pages_NaN_submitted:
  "\<not> starts_with_digit []
   \<and> (\<not> starts_with_digit raw \<longrightarrow>
        pages (config (state_after c (pages_onChange raw c))) = NaN
        \<and> fst (handleStart t0 t1 started (state_after c (pages_onChange raw c)))
            = [StartPipeline ((config c)\<lparr>pages := NaN\<rparr>)])"
  by (simp add: starts_with_digit_def strip_sign_def parseInt_NaN pages_onChange_def
      state_after_def handleStart_def Let_def)

theorem pages_NaN_submitted_witness:
  "pages (config (state_after initial (pages_onChange [] initial))) = NaN
   \<and> fst (handleStart ''10:00:00'' ''10:00:01'' (Resolved ())
        (state_after initial (pages_onChange [] initial)))
      = [StartPipeline ((config initial)\<lparr>pages := NaN\<rparr>)]
   \<and> pages (config (state_after initial (pages_onChange ''abc'' initial))) = NaN"
proof -
  have a: "\<not> starts_with_digit []"
    by (simp add: starts_with_digit_def strip_sign_def)
  have b: "\<not> starts_with_digit ''abc''"
    by (simp add: starts_with_digit_def strip_sign_def is_white_space_def radix_digit_def
        digit_value_def)
  from a b
    pages_NaN_submitted [where raw = "[]" and c = initial and ?t0.0 = "''10:00:00''"
      and ?t1.0 = "''10:00:01''" and started = "Resolved ()"]
    pages_NaN_submitted [where raw = "''abc''" and c = initial]
  show ?thesis by blast
qed

subsection \<open>The state machine and the control component\<close>

lemma stopping_step:
  "PipelineRun.state p = Stopping \<Longrightarrow>
   PipelineRun.state (machine_step e p) =
     (if e = Scheduler AttemptCompleted then Idle else Stopping)"
proof (cases e)
  case (Start cfg)
  assume "PipelineRun.state p = Stopping"
  with Start show ?thesis by (simp add: start_def)
next
  case Stop
  assume "PipelineRun.state p = Stopping"
  with Stop show ?thesis by (simp add: stop_def)
next
  case (Scheduler ev)
  assume "PipelineRun.state p = Stopping"
  with Scheduler show ?thesis by (cases ev) simp_all
qed

lemma stopping_run:
  "PipelineRun.state p = Stopping \<Longrightarrow> Scheduler AttemptCompleted \<notin> set es
   \<Longrightarrow> PipelineRun.state (machine_run es p) = Stopping"
proof (induction es arbitrary: p)
  case Nil
  then show ?case by simp
next
  case (Cons e es)
  from Cons.prems have "e \<noteq> Scheduler AttemptCompleted" by auto
  with Cons.prems have "PipelineRun.state (machine_step e p) = Stopping"
    by (simp add: stopping_step)
  with Cons.prems show ?case by (simp add: Cons.IH)
qed

text \<open>
  C1, as stated, fails on the component: it shows the pipeline as not running as soon
  as the stop request is accepted. With the Stop button showing, an accepted
  \<open>handleStop\<close> clears \<open>isRunning\<close> at once and the Start button is rendered again.
\<close>

theorem stop_clears_isRunning_at_once:
  "rendered_button (initial\<lparr>isRunning := True\<rparr>) = Stop_Pipeline
   \<and> \<not> isRunning (state_after (initial\<lparr>isRunning := True\<rparr>)
          (handleStop ''10:00:00'' (Resolved ()) (initial\<lparr>isRunning := True\<rparr>)))
   \<and> rendered_button (state_after (initial\<lparr>isRunning := True\<rparr>)
          (handleStop ''10:00:00'' (Resolved ()) (initial\<lparr>isRunning := True\<rparr>)))
      = Start_Pipeline"
  by (simp add: handleStop_def state_after_def rendered_button_def addLog_def initial_def)

text \<open>
  C1, amended. In the state machine \<open>stop()\<close> moves Running to Stopping, and a
  Stopping run leaves that state only when the in-flight attempt completes, for Idle: no
  other control call or scheduler event changes it. The component, for its part, sends the
  stop request, and when the request is accepted clears its running flag at once and logs
  the warning \<open>'Pipeline stop requested'\<close>; when the request is rejected the flag stays.
\<close>

theorem stop_is_graceful:
  "(PipelineRun.state p = Running \<longrightarrow> PipelineRun.state (stop p) = Stopping)
   \<and> (PipelineRun.state p = Stopping \<longrightarrow>
        PipelineRun.state (machine_step e p)
          = (if e = Scheduler AttemptCompleted then Idle else Stopping))
   \<and> (PipelineRun.state p = Stopping \<and> Scheduler AttemptCompleted \<notin> set es \<longrightarrow>
        PipelineRun.state (machine_run es p) = Stopping)
   \<and> fst (handleStop ts stopped c) = [StopPipeline]
   \<and> snd (handleStop ts stopped c) = Inr (state_after c (handleStop ts stopped c))
   \<and> \<not> isRunning (state_after c (handleStop ts (Resolved u) c))
   \<and> logs (state_after c (handleStop ts (Resolved u) c))
      = slice_last 50 (logs c @
          [\<lparr>message = ''Pipeline stop requested'', type = warning, timestamp = ts\<rparr>])
   \<and> isRunning (state_after c (handleStop ts Rejected c)) = isRunning c"
proof -
  have a: "PipelineRun.state p = Running \<longrightarrow> PipelineRun.state (stop p) = Stopping"
    by (simp add: stop_def)
  have b: "fst (handleStop ts stopped c) = [StopPipeline]"
    by (simp add: handleStop_def)
  have c: "snd (handleStop ts stopped c) = Inr (state_after c (handleStop ts stopped c))"
    by (simp add: handleStop_def state_after_def)
  have d: "\<not> isRunning (state_after c (handleStop ts (Resolved u) c))"
    by (simp add: handleStop_def state_after_def addLog_def)
  have e: "logs (state_after c (handleStop ts (Resolved u) c))
      = slice_last 50 (logs c @
          [\<lparr>message = ''Pipeline stop requested'', type = warning, timestamp = ts\<rparr>])"
    by (simp add: handleStop_def state_after_def addLog_def)
  have f: "isRunning (state_after c (handleStop ts Rejected c)) = isRunning c"
    by (simp add: handleStop_def state_after_def addLog_def)
  from a b c d e f stopping_step [of p e] stopping_run [of p es]
  show ?thesis by blast
qed

theorem stop_is_graceful_witness:
  "PipelineRun.state (stop \<lparr>PipelineRun.state = Running, current_message = ''Scraping''\<rparr>)
     = Stopping
   \<and> PipelineRun.state (machine_step (Scheduler AttemptCompleted :: unit machine_event)
        \<lparr>PipelineRun.state = Stopping, current_message = ''Scraping''\<rparr>) = Idle
   \<and> PipelineRun.state (machine_run [Stop, Start (), Scheduler FatalCondition]
        \<lparr>PipelineRun.state = Stopping, current_message = ''Scraping''\<rparr>) = Stopping"
  using stop_is_graceful
      [where p = "\<lparr>PipelineRun.state = Running, current_message = ''Scraping''\<rparr>"]
    stop_is_graceful
      [where p = "\<lparr>PipelineRun.state = Stopping, current_message = ''Scraping''\<rparr>"
         and e = "Scheduler AttemptCompleted :: unit machine_event"
         and es = "[Stop, Start (), Scheduler FatalCondition]"]
  by simp



text \<open>
  C3. \<open>start\<close> in any state but Idle, so also while a run is in progress, fails with
  AlreadyRunning and leaves the run as it is. When the start request of the component
  fails, \<open>handleStart\<close> still runs to its end: the running flag and the configuration
  are unchanged, so with the Start button showing the component is still not running,
  and the last log entry is the warning \<open>'Failed to start pipeline'\<close>.
\<close>

theorem start_while_running_fails:
  "(PipelineRun.state p \<noteq> Idle \<longrightarrow> start cfg p = (Inl AlreadyRunning, p))
   \<and> fst (handleStart t0 t1 Rejected c) = [StartPipeline (config c)]
   \<and> snd (handleStart t0 t1 Rejected c) = Inr (state_after c (handleStart t0 t1 Rejected c))
   \<and> isRunning (state_after c (handleStart t0 t1 Rejected c)) = isRunning c
   \<and> config (state_after c (handleStart t0 t1 Rejected c)) = config c
   \<and> last (logs (state_after c (handleStart t0 t1 Rejected c)))
      = \<lparr>message = ''Failed to start pipeline'', type = warning, timestamp = t1\<rparr>
   \<and> (rendered_button c = Start_Pipeline \<longrightarrow>
        \<not> isRunning (state_after c (handleStart t0 t1 Rejected c))
        \<and> rendered_button (state_after c (handleStart t0 t1 Rejected c)) = Start_Pipeline)"
proof -
  have a: "PipelineRun.state p \<noteq> Idle \<longrightarrow> start cfg p = (Inl AlreadyRunning, p)"
    by (simp add: start_def)
  have b: "state_after c (handleStart t0 t1 Rejected c)
      = addLog ''Failed to start pipeline'' warning t1
          (addLog ''Initiating pipeline start...'' info t0 c)"
    by (simp add: handleStart_def state_after_def Let_def)
  have c: "isRunning (state_after c (handleStart t0 t1 Rejected c)) = isRunning c"
    by (simp add: b addLog_def)
  have d: "config (state_after c (handleStart t0 t1 Rejected c)) = config c"
    by (simp add: b addLog_def)
  have e: "last (logs (state_after c (handleStart t0 t1 Rejected c)))
      = \<lparr>message = ''Failed to start pipeline'', type = warning, timestamp = t1\<rparr>"
    by (simp add: b addLog_def slice_last_def)
  have f: "snd (handleStart t0 t1 Rejected c) = Inr (state_after c (handleStart t0 t1 Rejected c))"
    by (simp add: handleStart_def state_after_def Let_def)
  have g: "fst (handleStart t0 t1 Rejected c) = [StartPipeline (config c)]"
    by (simp add: handleStart_def Let_def)
  have h: "rendered_button c = Start_Pipeline \<longrightarrow>
        \<not> isRunning (state_after c (handleStart t0 t1 Rejected c))
        \<and> rendered_button (state_after c (handleStart t0 t1 Rejected c)) = Start_Pipeline"
    by (simp add: c rendered_button_def)
  from a c d e f g h show ?thesis by blast
qed

theorem start_while_running_fails_witness:
  "start initial_config \<lparr>PipelineRun.state = Running, current_message = ''Scraping''\<rparr>
     = (Inl AlreadyRunning, \<lparr>PipelineRun.state = Running, current_message = ''Scraping''\<rparr>)
   \<and> \<not> isRunning (state_after initial (handleStart ''10:00:00'' ''10:00:01'' Rejected initial))
   \<and> rendered_button (state_after initial (handleStart ''10:00:00'' ''10:00:01'' Rejected initial))
      = Start_Pipeline"
  using start_while_running_fails
      [where p = "\<lparr>PipelineRun.state = Running, current_message = ''Scraping''\<rparr>"
         and cfg = initial_config and c = initial and ?t0.0 = "''10:00:00''"
         and ?t1.0 = "''10:00:01''"]
  by (simp add: rendered_button_def initial_def)

subsection \<open>Deduplication\<close>

lemma fst_dedupe_Cons:
  "fst (dedupe (r # rs) seen) =
     (if fingerprint r \<in> seen then fst (dedupe rs seen)
      else r # fst (dedupe rs (insert (fingerprint r) seen)))"
  by (simp split: prod.splits)

lemma snd_dedupe_Cons:
  "snd (dedupe (r # rs) seen) =
     (if fingerprint r \<in> seen then Suc (snd (dedupe rs seen))
      else snd (dedupe rs (insert (fingerprint r) seen)))"
  by (simp split: prod.splits)

lemma dedupe_fresh:
  "fingerprint ` set (fst (dedupe batch seen)) \<inter> seen = {}
   \<and> distinct (map fingerprint (fst (dedupe batch seen)))"
proof (induction batch arbitrary: seen)
  case Nil
  show ?case by simp
next
  case (Cons r rs)
  show ?case
  proof (cases "fingerprint r \<in> seen")
    case True
    with Cons.IH [of seen] show ?thesis by (simp only: fst_dedupe_Cons if_True)
  next
    case False
    with Cons.IH [of "insert (fingerprint r) seen"] show ?thesis
      by (simp only: fst_dedupe_Cons if_False) auto
  qed
qed

lemma dedupe_of_fresh:
  "fingerprint ` set xs \<inter> seen = {} \<Longrightarrow> distinct (map fingerprint xs)
   \<Longrightarrow> dedupe xs seen = (xs, 0)"
proof (induction xs arbitrary: seen)
  case Nil
  show ?case by simp
next
  case (Cons r rs)
  from Cons.prems have a: "fingerprint r \<notin> seen" by auto
  from Cons.prems have "fingerprint ` set rs \<inter> insert (fingerprint r) seen = {}"
    and "distinct (map fingerprint rs)" by auto
  then have "dedupe rs (insert (fingerprint r) seen) = (rs, 0)" by (rule Cons.IH)
  with a show ?case by simp
qed

lemma dedupe_count: "length (fst (dedupe batch seen)) + snd (dedupe batch seen) = length batch"
proof (induction batch arbitrary: seen)
  case Nil
  show ?case by simp
next
  case (Cons r rs)
  from Cons.IH [of seen] Cons.IH [of "insert (fingerprint r) seen"]
  show ?case by (simp only: fst_dedupe_Cons snd_dedupe_Cons) simp
qed

text \<open>
  C7. \<open>dedupe\<close> is idempotent: run again on its own output, with the fingerprints
  seen before the first run, it returns that output unchanged and removes no review.
\<close>

theorem dedupe_idempotent:
  "dedupe (fst (dedupe batch seen)) seen = (fst (dedupe batch seen), 0)
   \<and> snd (dedupe (fst (dedupe batch seen)) seen) = 0"
  using dedupe_fresh [of batch seen] by (simp add: dedupe_of_fresh)

theorem dedupe_idempotent_witness:
  "dedupe
     [\<lparr>target_identifier = ''B0CX59H5W7'', title = ''Nice'', rating = 5,
        content = ''Great  product'', date = ''2024-01-02'', source_page_index = 1\<rparr>,
      \<lparr>target_identifier = ''B0CX59H5W7'', title = ''Again'', rating = 5,
        content = ''great product'', date = ''2024-01-03'', source_page_index = 2\<rparr>] {}
     = ([\<lparr>target_identifier = ''B0CX59H5W7'', title = ''Nice'', rating = 5,
          content = ''Great  product'', date = ''2024-01-02'', source_page_index = 1\<rparr>], 1)
   \<and> dedupe
       [\<lparr>target_identifier = ''B0CX59H5W7'', title = ''Nice'', rating = 5,
          content = ''Great  product'', date = ''2024-01-02'', source_page_index = 1\<rparr>] {}
     = ([\<lparr>target_identifier = ''B0CX59H5W7'', title = ''Nice'', rating = 5,
          content = ''Great  product'', date = ''2024-01-02'', source_page_index = 1\<rparr>], 0)"
proof -
  have first: "dedupe
     [\<lparr>target_identifier = ''B0CX59H5W7'', title = ''Nice'', rating = 5,
        content = ''Great  product'', date = ''2024-01-02'', source_page_index = 1\<rparr>,
      \<lparr>target_identifier = ''B0CX59H5W7'', title = ''Again'', rating = 5,
        content = ''great product'', date = ''2024-01-03'', source_page_index = 2\<rparr>] {}
     = ([\<lparr>target_identifier = ''B0CX59H5W7'', title = ''Nice'', rating = 5,
          content = ''Great  product'', date = ''2024-01-02'', source_page_index = 1\<rparr>], 1)"
    by code_simp
  from dedupe_idempotent
    [of "[\<lparr>target_identifier = ''B0CX59H5W7'', title = ''Nice'', rating = 5,
        content = ''Great  product'', date = ''2024-01-02'', source_page_index = 1\<rparr>,
      \<lparr>target_identifier = ''B0CX59H5W7'', title = ''Again'', rating = 5,
        content = ''great product'', date = ''2024-01-03'', source_page_index = 2\<rparr>]" "{}"]
    first
  show ?thesis by simp
qed

end
